theory Spec2Isabelle
  imports Complex_Main "HOL-Library.AList" "HOL-Library.Sublist"
begin

section \<open>Transcript records\<close>

text \<open>
  The metric functions of \<^verbatim>\<open>metric.py\<close> read one transcript row \<^verbatim>\<open>df\<close>: nested
  Python dicts and lists. Each dict with a fixed set of keys is a record here, each
  Python list a HOL list, and every exception the source can raise is a value of
  \<open>error\<close>, returned as \<open>Inl\<close>.

  Strings are byte strings (the UTF-8 encoding of the Python text): equality and
  substring containment of Python strings coincide with those of their encodings.
  Python floats are modelled as real numbers, with a separate value for
  \<^verbatim>\<open>float("inf")\<close>.
\<close>

datatype error =
  IndexError | KeyError | ZeroDivisionError | TypeError | AttributeError | JSONDecodeError

datatype pyfloat = Finite real | Infinity

text \<open>A value that is a string or \<^verbatim>\<open>None\<close>.\<close>

datatype pyval = PyNone | PyStr string

text \<open>
  One entry of a state snapshot: its \<^verbatim>\<open>class_name\<close> and the rest of the dict, which the
  source only ever compares with \<^verbatim>\<open>==\<close> and \<^verbatim>\<open>!=\<close>.
\<close>

record 'a api_state =
  class_name :: string
  state_content :: 'a

text \<open>A dict with a \<^verbatim>\<open>content\<close> key: an assistant response or a tool response entry.\<close>

record message =
  content :: pyval

text \<open>
  A step. \<^verbatim>\<open>handler_response\<close> and \<^verbatim>\<open>assistant_response\<close> are keys a step may lack
  (\<open>None\<close> is the missing key).
\<close>

record step =
  num_tools :: nat
  tool_response :: "message list"
  handler_response :: "unit option"
  assistant_response :: "message option"

record 'a turn =
  num_steps :: nat
  step_responses :: "step list"
  end_of_turn_state :: "'a api_state list"

record 'a transcript =
  turn_responses :: "'a turn list"
  ground_truth_log :: "'a api_state list list"
  error_type :: "string list"

section \<open>Python list and number operations\<close>

text \<open>\<^verbatim>\<open>xs[i]\<close> for a non-negative index: out of range raises IndexError.\<close>

definition getitem :: "'a list \<Rightarrow> nat \<Rightarrow> error + 'a" where
  "getitem xs i = (if i < length xs then Inr (xs ! i) else Inl IndexError)"

text \<open>\<^verbatim>\<open>xs[-1]\<close>: the last element, IndexError on the empty list.\<close>

definition getitem_last :: "'a list \<Rightarrow> error + 'a" where
  "getitem_last xs = (if xs = [] then Inl IndexError else Inr (last xs))"

text \<open>\<^verbatim>\<open>a / b\<close> with \<open>b\<close> an integer length: true division, ZeroDivisionError at 0.\<close>

definition truediv :: "real \<Rightarrow> nat \<Rightarrow> error + real" where
  "truediv a b = (if b = 0 then Inl ZeroDivisionError else Inr (a / real b))"

section \<open>State-consistency rates\<close>

text \<open>
  The two arguments of \<^verbatim>\<open>zip\<close> in the three rate functions, evaluated in the source's
  order: \<^verbatim>\<open>df['turn_responses'][turn_idx]['end_of_turn_state']\<close>, then
  \<^verbatim>\<open>df['ground_truth_log'][turn_idx + 1]\<close>.
\<close>

definition zip_pred_truth ::
  "'a transcript \<Rightarrow> nat \<Rightarrow> error + ('a api_state \<times> 'a api_state) list" where
  "zip_pred_truth df turn_idx =
     (case getitem (turn_responses df) turn_idx of
        Inl e \<Rightarrow> Inl e
      | Inr turn_response \<Rightarrow>
          (case getitem (ground_truth_log df) (turn_idx + 1) of
             Inl e \<Rightarrow> Inl e
           | Inr truth \<Rightarrow> Inr (zip (end_of_turn_state turn_response) truth)))"

text \<open>
  \<^verbatim>\<open>task_process_rate\<close>: the loop over \<^verbatim>\<open>range(len(df['turn_responses']))\<close>; the inner
  loop returns at the first pair with \<^verbatim>\<open>pred != truth\<close>.
\<close>

fun task_process_rate_loop :: "'a transcript \<Rightarrow> nat list \<Rightarrow> error + pyfloat" where
  "task_process_rate_loop df [] = Inr Infinity"
| "task_process_rate_loop df (turn_idx # rest) =
     (case zip_pred_truth df turn_idx of
        Inl e \<Rightarrow> Inl e
      | Inr pairs \<Rightarrow>
          if list_ex (\<lambda>(pred, truth). pred \<noteq> truth) pairs
          then (case truediv (real turn_idx) (length (turn_responses df)) of
                  Inl e \<Rightarrow> Inl e
                | Inr r \<Rightarrow> Inr (Finite r))
          else task_process_rate_loop df rest)"

definition task_process_rate :: "'a transcript \<Rightarrow> error + pyfloat" where
  "task_process_rate df = task_process_rate_loop df [0..<length (turn_responses df)]"

text \<open>
  \<^verbatim>\<open>average_turn_success_rate\<close>: \<open>score\<close> counts the turns whose pairs are all equal.
\<close>

fun average_turn_success_rate_loop :: "'a transcript \<Rightarrow> nat list \<Rightarrow> nat \<Rightarrow> error + nat" where
  "average_turn_success_rate_loop df [] score = Inr score"
| "average_turn_success_rate_loop df (turn_idx # rest) score =
     (case zip_pred_truth df turn_idx of
        Inl e \<Rightarrow> Inl e
      | Inr pairs \<Rightarrow>
          if list_all (\<lambda>(pred, truth). pred = truth) pairs
          then average_turn_success_rate_loop df rest (score + 1)
          else average_turn_success_rate_loop df rest score)"

definition average_turn_success_rate :: "'a transcript \<Rightarrow> error + real" where
  "average_turn_success_rate df =
     (case average_turn_success_rate_loop df [0..<length (turn_responses df)] 0 of
        Inl e \<Rightarrow> Inl e
      | Inr score \<Rightarrow> truediv (real score) (length (turn_responses df)))"

text \<open>
  \<^verbatim>\<open>soft_average_turn_success_rate\<close>: \<open>last_incorrect_turn\<close> is \<open>None\<close> while it is
  \<^verbatim>\<open>float("inf")\<close>, so \<^verbatim>\<open>turn_idx < last_incorrect_turn\<close> holds at \<open>None\<close>.
\<close>

fun soft_average_turn_success_rate_loop ::
  "'a transcript \<Rightarrow> nat list \<Rightarrow> real \<Rightarrow> nat option \<Rightarrow> error + real" where
  "soft_average_turn_success_rate_loop df [] score last_incorrect_turn = Inr score"
| "soft_average_turn_success_rate_loop df (turn_idx # rest) score last_incorrect_turn =
     (case zip_pred_truth df turn_idx of
        Inl e \<Rightarrow> Inl e
      | Inr pairs \<Rightarrow>
          if list_all (\<lambda>(pred, truth). pred = truth) pairs
          then (case last_incorrect_turn of
                  None \<Rightarrow>
                    soft_average_turn_success_rate_loop df rest (score + 1) last_incorrect_turn
                | Some l \<Rightarrow>
                    if turn_idx < l
                    then soft_average_turn_success_rate_loop df rest (score + 1)
                           last_incorrect_turn
                    else soft_average_turn_success_rate_loop df rest
                           (score + (1 - exp (- (real turn_idx - real l))))
                           last_incorrect_turn)
          else soft_average_turn_success_rate_loop df rest score (Some turn_idx))"

definition soft_average_turn_success_rate :: "'a transcript \<Rightarrow> error + real" where
  "soft_average_turn_success_rate df =
     (case soft_average_turn_success_rate_loop df [0..<length (turn_responses df)] 0 None of
        Inl e \<Rightarrow> Inl e
      | Inr score \<Rightarrow> truediv score (length (turn_responses df)))"

section \<open>Per-API state mismatch\<close>

text \<open>
  The values of the result: \<^verbatim>\<open>np.nan\<close> (not applicable), \<^verbatim>\<open>False\<close> (no mismatch) and
  \<^verbatim>\<open>True\<close> (mismatch).
\<close>

datatype api_status = NotApplicable | NoMismatch | Mismatch

definition API_LIST :: "string list" where
  "API_LIST = [''GorillaFileSystem'', ''MathAPI'', ''MessageAPI'',
               ''TwitterAPI'', ''TicketAPI'', ''TradingBot'',
               ''TravelAPI'', ''VehicleControlAPI'']"

text \<open>
  The dict \<^verbatim>\<open>state\<close> is an association list in insertion order: \<^verbatim>\<open>state[k] = v\<close>
  replaces the value of a key already there and appends a new key at the end, which is
  \<open>AList.update\<close>; \<^verbatim>\<open>state.values()\<close> is \<open>map snd\<close>.

  The body of the loop over one turn in the \<^verbatim>\<open>else\<close> branch: every pair of
  \<^verbatim>\<open>zip(gt_states, turn_states)\<close> with \<^verbatim>\<open>gt_state != turn_state\<close> sets
  \<^verbatim>\<open>state[gt_state['class_name']] = True\<close>.
\<close>

definition mark_turn ::
  "'a api_state list \<Rightarrow> 'a api_state list \<Rightarrow> (string \<times> api_status) list
     \<Rightarrow> (string \<times> api_status) list" where
  "mark_turn gt_states turn_states state =
     fold (\<lambda>(gt_state, turn_state) st.
             if gt_state \<noteq> turn_state then AList.update (class_name gt_state) Mismatch st
             else st)
          (zip gt_states turn_states) state"

text \<open>The loop over \<^verbatim>\<open>enumerate(df['turn_responses'])\<close>.\<close>

fun compare_turns ::
  "'a transcript \<Rightarrow> (nat \<times> 'a turn) list \<Rightarrow> (string \<times> api_status) list
     \<Rightarrow> error + (string \<times> api_status) list" where
  "compare_turns df [] state = Inr state"
| "compare_turns df ((turn_idx, turn_response) # rest) state =
     (case getitem (ground_truth_log df) (turn_idx + 1) of
        Inl e \<Rightarrow> Inl e
      | Inr gt_states \<Rightarrow>
          compare_turns df rest (mark_turn gt_states (end_of_turn_state turn_response) state))"

text \<open>The dict \<^verbatim>\<open>state\<close> when \<^verbatim>\<open>check_api_state_mismatch\<close> reaches its return.\<close>

definition check_api_state_mismatch_state ::
  "'a transcript \<Rightarrow> error + (string \<times> api_status) list" where
  "check_api_state_mismatch_state df =
     (let state = map (\<lambda>api. (api, NotApplicable)) API_LIST in
      case getitem (turn_responses df) 0 of
        Inl e \<Rightarrow> Inl e
      | Inr first_turn \<Rightarrow>
          let api_list = map class_name (end_of_turn_state first_turn);
              state = fold (\<lambda>api st. AList.update api NoMismatch st) api_list state
          in if length (ground_truth_log df) \<noteq> length (turn_responses df) + 1
             then Inr (fold (\<lambda>api st. AList.update api Mismatch st) api_list state)
             else compare_turns df (enumerate 0 (turn_responses df)) state)"

text \<open>\<^verbatim>\<open>check_api_state_mismatch\<close> returns \<^verbatim>\<open>pd.Series(state.values())\<close>.\<close>

definition check_api_state_mismatch :: "'a transcript \<Rightarrow> error + api_status list" where
  "check_api_state_mismatch df =
     (case check_api_state_mismatch_state df of
        Inl e \<Rightarrow> Inl e
      | Inr state \<Rightarrow> Inr (map snd state))"

section \<open>Apologetic closing messages\<close>

text \<open>
  The phrase list, byte for byte as the source file has it: the sixth entry is
  \<^verbatim>\<open>can\<close>, the bytes C3 A2, E2 82 AC, E2 84 A2, and \<^verbatim>\<open>t\<close>.
\<close>

definition APOLOGETIC_SUBSTRING :: "string list" where
  "APOLOGETIC_SUBSTRING =
     [''sorry'',
      ''apologize'',
      ''cannot'',
      ''could not'',
      ''couldn'' @ [CHR 0x27] @ ''t'',
      ''can'' @ [CHR 0xC3, CHR 0xA2, CHR 0xE2, CHR 0x82, CHR 0xAC, CHR 0xE2, CHR 0x84, CHR 0xA2]
        @ ''t'',
      ''unable'',
      ''unfortunately'',
      ''not successful'',
      ''lacks'']"

text \<open>\<^verbatim>\<open>str(v)\<close> for a string or \<^verbatim>\<open>None\<close>.\<close>

definition py_str :: "pyval \<Rightarrow> string" where
  "py_str v = (case v of PyNone \<Rightarrow> ''None'' | PyStr s \<Rightarrow> s)"

text \<open>\<^verbatim>\<open>s is None\<close> for a value \<open>s\<close> that is a \<^verbatim>\<open>str\<close>: never true.\<close>

definition str_is_None :: "string \<Rightarrow> bool" where
  "str_is_None s = False"

text \<open>
  \<^verbatim>\<open>str(turn_response["step_responses"][-1]['assistant_response']['content'])\<close>.
\<close>

definition turn_summary :: "'a turn \<Rightarrow> error + string" where
  "turn_summary turn_response =
     (case getitem_last (step_responses turn_response) of
        Inl e \<Rightarrow> Inl e
      | Inr final_step \<Rightarrow>
          (case assistant_response final_step of
             None \<Rightarrow> Inl KeyError
           | Some m \<Rightarrow> Inr (py_str (content m))))"

text \<open>
  \<^verbatim>\<open>apologetic\<close>. Python's \<^verbatim>\<open>str.lower\<close> is the parameter \<open>lower\<close>; \<^verbatim>\<open>phrase in text\<close>
  is \<open>sublist phrase text\<close>.
\<close>

fun apologetic_loop :: "(string \<Rightarrow> string) \<Rightarrow> 'a turn list \<Rightarrow> error + bool" where
  "apologetic_loop lower [] = Inr False"
| "apologetic_loop lower (turn_response # rest) =
     (case turn_summary turn_response of
        Inl e \<Rightarrow> Inl e
      | Inr summary \<Rightarrow>
          if str_is_None summary
             \<or> list_ex (\<lambda>phrase. sublist (lower phrase) (lower summary)) APOLOGETIC_SUBSTRING
          then Inr True
          else apologetic_loop lower rest)"

definition apologetic :: "(string \<Rightarrow> string) \<Rightarrow> 'a transcript \<Rightarrow> error + bool" where
  "apologetic lower df = apologetic_loop lower (turn_responses df)"

text \<open>\<^verbatim>\<open>str.lower\<close> on ASCII text: the letters A to Z move to a to z.\<close>

definition ascii_lower :: "string \<Rightarrow> string" where
  "ascii_lower s =
     map (\<lambda>c. if (65::nat) \<le> of_char c \<and> of_char c \<le> (90::nat)
              then char_of (of_char c + (32::nat)) else c) s"

section \<open>Tool errors\<close>

text \<open>
  The values \<^verbatim>\<open>json.loads\<close> returns. Only an object (a dict) has \<^verbatim>\<open>.keys()\<close>; on any
  other value the attribute lookup raises AttributeError.
\<close>

datatype json =
  JNull | JBool bool | JNumber real | JString string | JArray "json list"
  | JObject "(string \<times> json) list"

fun keys :: "json \<Rightarrow> error + string list" where
  "keys (JObject kvs) = Inr (map fst kvs)"
| "keys _ = Inl AttributeError"

text \<open>
  \<^verbatim>\<open>json.loads(v)\<close>: TypeError on \<^verbatim>\<open>None\<close>; on a string, the JSON parser of Python's
  library, which is the parameter \<open>parse\<close> (it returns \<open>Inl JSONDecodeError\<close> on text that
  is not JSON).
\<close>

definition json_loads :: "(string \<Rightarrow> error + json) \<Rightarrow> pyval \<Rightarrow> error + json" where
  "json_loads parse v = (case v of PyNone \<Rightarrow> Inl TypeError | PyStr s \<Rightarrow> parse s)"

text \<open>
  The \<^verbatim>\<open>try\<close> block of \<^verbatim>\<open>num_tool_errors\<close> for one tool response; the bare \<^verbatim>\<open>except\<close>
  leaves the counter as it is.
\<close>

definition count_tool_response ::
  "(string \<Rightarrow> error + json) \<Rightarrow> message \<Rightarrow> nat \<Rightarrow> nat" where
  "count_tool_response parse tool_resp num_errors =
     (case json_loads parse (content tool_resp) of
        Inl e \<Rightarrow> num_errors
      | Inr j \<Rightarrow>
          (case keys j of
             Inl e \<Rightarrow> num_errors
           | Inr ks \<Rightarrow> if ''error'' \<in> set ks then num_errors + 1 else num_errors))"

text \<open>
  \<^verbatim>\<open>num_tool_errors\<close>: the three nested loops (indexing \<^verbatim>\<open>df['turn_responses']\<close> by
  \<^verbatim>\<open>range(len(turn_responses))\<close> visits the turns in order).
\<close>

definition num_tool_errors :: "(string \<Rightarrow> error + json) \<Rightarrow> 'a transcript \<Rightarrow> nat" where
  "num_tool_errors parse df =
     fold (\<lambda>turn_response num_errors.
             fold (\<lambda>step num_errors.
                     fold (count_tool_response parse) (tool_response step) num_errors)
                  (step_responses turn_response) num_errors)
          (turn_responses df) 0"

definition has_error_in_tool_response :: "(string \<Rightarrow> error + json) \<Rightarrow> message \<Rightarrow> bool" where
  "has_error_in_tool_response parse tool_resp =
     (case json_loads parse (content tool_resp) of
        Inl e \<Rightarrow> False
      | Inr j \<Rightarrow> (case keys j of Inl e \<Rightarrow> False | Inr ks \<Rightarrow> ''error'' \<in> set ks))"

definition num_turn_with_errors :: "(string \<Rightarrow> error + json) \<Rightarrow> 'a transcript \<Rightarrow> nat" where
  "num_turn_with_errors parse df =
     fold (\<lambda>turn_response num_turns_with_error.
             if list_ex (\<lambda>step. list_ex (has_error_in_tool_response parse) (tool_response step))
                  (step_responses turn_response)
             then num_turns_with_error + 1
             else num_turns_with_error)
          (turn_responses df) 0"

section \<open>Turns without function calls\<close>

text \<open>
  The inner loop of \<^verbatim>\<open>no_func_call_rate\<close> over the steps of one turn: \<^verbatim>\<open>break\<close> at the
  first step with the key \<^verbatim>\<open>handler_response\<close>, one increment for every step before it.
\<close>

fun scan_steps :: "step list \<Rightarrow> nat \<Rightarrow> nat" where
  "scan_steps [] no_func_call_count = no_func_call_count"
| "scan_steps (entry # rest) no_func_call_count =
     (if handler_response entry \<noteq> None then no_func_call_count
      else scan_steps rest (no_func_call_count + 1))"

definition no_func_call_rate :: "'a transcript \<Rightarrow> error + real" where
  "no_func_call_rate df =
     truediv
       (real (fold (\<lambda>turn_response no_func_call_count.
                      scan_steps (step_responses turn_response) no_func_call_count)
                   (turn_responses df) 0))
       (length (turn_responses df))"

section \<open>Notions of the specification\<close>

text \<open>
  Every positional pair of two snapshots is structurally equal: the pairs are the
  positions both snapshots have.
\<close>

definition positional_pairs_equal :: "'a list \<Rightarrow> 'a list \<Rightarrow> bool" where
  "positional_pairs_equal xs ys = (\<forall>j. j < length xs \<and> j < length ys \<longrightarrow> xs ! j = ys ! j)"

text \<open>
  The comparison of turn \<open>turn_idx\<close> fully matches: the predicted end-of-turn state
  against \<^verbatim>\<open>ground_truth_log[turn_idx + 1]\<close>.
\<close>

definition turn_fully_matches :: "'a transcript \<Rightarrow> nat \<Rightarrow> bool" where
  "turn_fully_matches df turn_idx =
     positional_pairs_equal (end_of_turn_state (turn_responses df ! turn_idx))
       (ground_truth_log df ! (turn_idx + 1))"

text \<open>The ground-truth log has an entry for every index the listed turns read.\<close>

definition indices_in_range :: "'a transcript \<Rightarrow> nat list \<Rightarrow> bool" where
  "indices_in_range df idxs =
     (\<forall>i \<in> set idxs. i < length (turn_responses df) \<and> i + 1 < length (ground_truth_log df))"

text \<open>
  The steps of a turn before its first step that carries the key
  \<^verbatim>\<open>handler_response\<close>.
\<close>

definition steps_before_first_call :: "step list \<Rightarrow> step list" where
  "steps_before_first_call steps = takeWhile (\<lambda>entry. handler_response entry = None) steps"

text \<open>
  A tool-response entry whose content string parses as a JSON object containing an
  \<^verbatim>\<open>"error"\<close> key.
\<close>

definition is_error_entry :: "(string \<Rightarrow> error + json) \<Rightarrow> message \<Rightarrow> bool" where
  "is_error_entry parse tool_resp =
     (\<exists>s kvs. content tool_resp = PyStr s \<and> parse s = Inr (JObject kvs)
              \<and> ''error'' \<in> fst ` set kvs)"

text \<open>A turn with at least one such entry.\<close>

definition turn_has_error_entry :: "(string \<Rightarrow> error + json) \<Rightarrow> 'a turn \<Rightarrow> bool" where
  "turn_has_error_entry parse turn_response =
     (\<exists>step \<in> set (step_responses turn_response).
        \<exists>tool_resp \<in> set (tool_response step). is_error_entry parse tool_resp)"

text \<open>The API names present in the first turn's end-of-turn state.\<close>

definition first_turn_apis :: "'a transcript \<Rightarrow> string set" where
  "first_turn_apis df = class_name ` set (end_of_turn_state (turn_responses df ! 0))"

text \<open>
  Some positional pair of a ground-truth snapshot and a predicted snapshot is structurally
  unequal, and its ground-truth entry carries the class name \<open>api\<close>.
\<close>

definition pair_mismatch :: "'a api_state list \<Rightarrow> 'a api_state list \<Rightarrow> string \<Rightarrow> bool" where
  "pair_mismatch gt_states turn_states api =
     (\<exists>j. j < length gt_states \<and> j < length turn_states
          \<and> gt_states ! j \<noteq> turn_states ! j \<and> class_name (gt_states ! j) = api)"

text \<open>Some turn has such a pair.\<close>

definition ground_truth_mismatch :: "'a transcript \<Rightarrow> string \<Rightarrow> bool" where
  "ground_truth_mismatch df api =
     (\<exists>k. k < length (turn_responses df)
          \<and> pair_mismatch (ground_truth_log df ! (k + 1))
                (end_of_turn_state (turn_responses df ! k)) api)"

text \<open>The length invariant of a well-formed transcript.\<close>

definition length_invariant :: "'a transcript \<Rightarrow> bool" where
  "length_invariant df = (length (ground_truth_log df) = length (turn_responses df) + 1)"

text \<open>
  The keys of the dict \<open>state\<close> start with the known APIs in their order, and no key
  occurs twice.
\<close>

definition keeps_api_keys :: "(string \<times> api_status) list \<Rightarrow> bool" where
  "keeps_api_keys state = (prefix API_LIST (map fst state) \<and> distinct (map fst state))"

section \<open>Sample transcripts\<close>

definition sample_state :: "string \<Rightarrow> nat \<Rightarrow> nat api_state" where
  "sample_state name v = \<lparr>class_name = name, state_content = v\<rparr>"

definition sample_turn :: "nat api_state list \<Rightarrow> nat turn" where
  "sample_turn snapshot = \<lparr>num_steps = 1, step_responses = [], end_of_turn_state = snapshot\<rparr>"

text \<open>Three turns; the second one ends in a state that differs from the ground truth.\<close>

definition late_error :: "nat transcript" where
  "late_error =
     \<lparr>turn_responses =
        [sample_turn [sample_state ''MathAPI'' 1],
         sample_turn [sample_state ''MathAPI'' 7],
         sample_turn [sample_state ''MathAPI'' 3]],
      ground_truth_log =
        [[sample_state ''MathAPI'' 0], [sample_state ''MathAPI'' 1],
         [sample_state ''MathAPI'' 2], [sample_state ''MathAPI'' 3]],
      error_type = []\<rparr>"

text \<open>One turn and an empty ground-truth log.\<close>

definition short_log :: "nat transcript" where
  "short_log =
     \<lparr>turn_responses = [sample_turn [sample_state ''MathAPI'' 1]],
      ground_truth_log = [],
      error_type = []\<rparr>"

text \<open>No turns at all.\<close>

definition no_turns :: "nat transcript" where
  "no_turns = \<lparr>turn_responses = [], ground_truth_log = [[]], error_type = []\<rparr>"

text \<open>Two turns, both ending in the ground-truth state.\<close>

definition all_correct :: "nat transcript" where
  "all_correct =
     \<lparr>turn_responses =
        [sample_turn [sample_state ''MathAPI'' 1],
         sample_turn [sample_state ''MathAPI'' 2]],
      ground_truth_log =
        [[sample_state ''MathAPI'' 0], [sample_state ''MathAPI'' 1],
         [sample_state ''MathAPI'' 2]],
      error_type = []\<rparr>"

text \<open>
  Two turns whose snapshots differ in length from the ground truth and agree on the
  positions both have.
\<close>

definition extra_state :: "nat transcript" where
  "extra_state =
     \<lparr>turn_responses =
        [sample_turn [sample_state ''MathAPI'' 1, sample_state ''TradingBot'' 5],
         sample_turn [sample_state ''MathAPI'' 2]],
      ground_truth_log =
        [[sample_state ''MathAPI'' 0], [sample_state ''MathAPI'' 1],
         [sample_state ''MathAPI'' 2, sample_state ''TradingBot'' 9]],
      error_type = []\<rparr>"

text \<open>Three turns; only the first one ends in a state that differs from the ground truth.\<close>

definition early_error :: "nat transcript" where
  "early_error =
     \<lparr>turn_responses =
        [sample_turn [sample_state ''MathAPI'' 7],
         sample_turn [sample_state ''MathAPI'' 2],
         sample_turn [sample_state ''MathAPI'' 3]],
      ground_truth_log =
        [[sample_state ''MathAPI'' 0], [sample_state ''MathAPI'' 1],
         [sample_state ''MathAPI'' 2], [sample_state ''MathAPI'' 3]],
      error_type = []\<rparr>"


text \<open>Steps and turns for the sample transcripts below.\<close>

definition text_step :: step where
  "text_step = \<lparr>num_tools = 0, tool_response = [], handler_response = None,
                 assistant_response = Some \<lparr>content = PyStr ''Done.''\<rparr>\<rparr>"

definition call_step :: "message list \<Rightarrow> step" where
  "call_step results = \<lparr>num_tools = 1, tool_response = results, handler_response = Some (),
                          assistant_response = Some \<lparr>content = PyStr ''''\<rparr>\<rparr>"

definition steps_turn :: "step list \<Rightarrow> nat turn" where
  "steps_turn steps = \<lparr>num_steps = length steps, step_responses = steps, end_of_turn_state = []\<rparr>"

text \<open>
  Two turns: text, call, text (one step before the call) and text, text (two steps, no
  call).
\<close>

definition mixed_steps :: "nat transcript" where
  "mixed_steps =
     \<lparr>turn_responses = [steps_turn [text_step, call_step [], text_step],
                         steps_turn [text_step, text_step]],
      ground_truth_log = [[], [], []],
      error_type = []\<rparr>"

text \<open>
  The two contents of the scenario, and what \<^verbatim>\<open>json.loads\<close> makes of them: an object
  with the key \<^verbatim>\<open>error\<close> for the first, a decoding error for \<^verbatim>\<open>not json\<close>.
\<close>

definition error_text :: string where
  \<open>error_text = ''{"error": "timeout"}''\<close>

definition sample_parse :: "string \<Rightarrow> error + json" where
  "sample_parse s =
     (if s = error_text then Inr (JObject [(''error'', JString ''timeout'')])
      else Inl JSONDecodeError)"

text \<open>
  Two turns: the first has two entries with an error and one that is not JSON, the second
  only an entry that is not JSON.
\<close>

definition tool_run :: "nat transcript" where
  "tool_run =
     \<lparr>turn_responses =
        [steps_turn [call_step [\<lparr>content = PyStr error_text\<rparr>, \<lparr>content = PyStr ''not json''\<rparr>],
                     call_step [\<lparr>content = PyStr error_text\<rparr>],
                     text_step],
         steps_turn [call_step [\<lparr>content = PyStr ''not json''\<rparr>], text_step]],
      ground_truth_log = [[], [], []],
      error_type = []\<rparr>"

text \<open>One turn whose closing message has the content \<^verbatim>\<open>None\<close>.\<close>

definition null_reply :: "nat transcript" where
  "null_reply =
     \<lparr>turn_responses =
        [steps_turn [\<lparr>num_tools = 0, tool_response = [], handler_response = None,
                      assistant_response = Some \<lparr>content = PyNone\<rparr>\<rparr>]],
      ground_truth_log = [[], []],
      error_type = []\<rparr>"

text \<open>Two turns; the API appears in the second turn only. The length invariant holds.\<close>

definition late_api :: "nat transcript" where
  "late_api =
     \<lparr>turn_responses = [sample_turn [], sample_turn [sample_state ''MathAPI'' 1]],
      ground_truth_log = [[], [], [sample_state ''MathAPI'' 1]],
      error_type = []\<rparr>"

text \<open>
  One turn whose only predicted entry and ground-truth entry carry different class names.
\<close>

definition renamed_state :: "nat transcript" where
  "renamed_state =
     \<lparr>turn_responses = [sample_turn [sample_state ''TradingBot'' 1]],
      ground_truth_log = [[], [sample_state ''MathAPI'' 1]],
      error_type = []\<rparr>"

text \<open>As \<open>late_api\<close>, with one ground-truth entry too many.\<close>

definition late_api_long_log :: "nat transcript" where
  "late_api_long_log =
     \<lparr>turn_responses = [sample_turn [], sample_turn [sample_state ''MathAPI'' 1]],
      ground_truth_log = [[], [], [sample_state ''MathAPI'' 1], []],
      error_type = []\<rparr>"

text \<open>No turns and an empty ground-truth log: the length invariant fails.\<close>

definition no_turns_no_log :: "nat transcript" where
  "no_turns_no_log = \<lparr>turn_responses = [], ground_truth_log = [], error_type = []\<rparr>"

text \<open>One turn with two APIs and a ground-truth log that is too short.\<close>

definition first_turn_only :: "nat transcript" where
  "first_turn_only =
     \<lparr>turn_responses = [sample_turn [sample_state ''MathAPI'' 1, sample_state ''TicketAPI'' 4]],
      ground_truth_log = [[]],
      error_type = []\<rparr>"

section \<open>Properties of the rate loops\<close>

lemma list_all_zip_equal:
  "list_all (\<lambda>(pred, truth). pred = truth) (zip xs ys) = positional_pairs_equal xs ys"
  by (auto simp: list_all_length positional_pairs_equal_def)

lemma list_ex_zip_differs:
  "list_ex (\<lambda>(pred, truth). pred \<noteq> truth) (zip xs ys) = (\<not> positional_pairs_equal xs ys)"
  by (auto simp: list_ex_length positional_pairs_equal_def)

lemma positional_pairs_equal_Nil [simp]:
  "positional_pairs_equal [] ys" "positional_pairs_equal xs []"
  by (simp_all add: positional_pairs_equal_def)

lemma positional_pairs_equal_Cons [simp]:
  "positional_pairs_equal (x # xs) (y # ys) \<longleftrightarrow> x = y \<and> positional_pairs_equal xs ys"
  by (simp add: list_all_zip_equal [symmetric])

lemma zip_pred_truth_in_range:
  "turn_idx < length (turn_responses df) \<Longrightarrow> turn_idx + 1 < length (ground_truth_log df) \<Longrightarrow>
   zip_pred_truth df turn_idx =
     Inr (zip (end_of_turn_state (turn_responses df ! turn_idx))
              (ground_truth_log df ! (turn_idx + 1)))"
  by (simp add: zip_pred_truth_def getitem_def)

lemma indices_in_range_Cons:
  "indices_in_range df (i # idxs) \<longleftrightarrow>
     i < length (turn_responses df) \<and> i + 1 < length (ground_truth_log df)
     \<and> indices_in_range df idxs"
  by (auto simp: indices_in_range_def)

lemma indices_in_range_upt:
  "length (turn_responses df) < length (ground_truth_log df) \<Longrightarrow>
   indices_in_range df [0..<length (turn_responses df)]"
  by (auto simp: indices_in_range_def)

text \<open>The loop of \<^verbatim>\<open>task_process_rate\<close> stops at the first listed turn that mismatches.\<close>

lemma task_process_rate_loop_find:
  "indices_in_range df idxs \<Longrightarrow>
   task_process_rate_loop df idxs =
     (case List.find (\<lambda>k. \<not> turn_fully_matches df k) idxs of
        None \<Rightarrow> Inr Infinity
      | Some k \<Rightarrow> Inr (Finite (real k / real (length (turn_responses df)))))"
proof (induction idxs)
  case Nil
  then show ?case by simp
next
  case (Cons i idxs)
  then show ?case
    by (auto simp: indices_in_range_Cons zip_pred_truth_in_range list_ex_zip_differs
        turn_fully_matches_def truediv_def)
qed

lemma find_upt_Some:
  "List.find P [0..<n] = Some k \<longleftrightarrow> k < n \<and> P k \<and> (\<forall>j<k. \<not> P j)"
  by (auto simp: find_Some_iff)

lemma find_upt_None:
  "List.find P [0..<n] = None \<longleftrightarrow> (\<forall>k<n. \<not> P k)"
  by (auto simp: find_None_iff)

text \<open>The loop of \<^verbatim>\<open>average_turn_success_rate\<close> adds one per matching turn.\<close>

lemma average_turn_success_rate_loop_count:
  "indices_in_range df idxs \<Longrightarrow>
   average_turn_success_rate_loop df idxs score =
     Inr (score + length (filter (turn_fully_matches df) idxs))"
proof (induction idxs arbitrary: score)
  case Nil
  then show ?case by simp
next
  case (Cons i idxs)
  then show ?case
    by (auto simp: indices_in_range_Cons zip_pred_truth_in_range list_all_zip_equal
        turn_fully_matches_def)
qed

lemma length_filter_upt:
  "length (filter P [0..<n]) = card {k. k < n \<and> P k}"
proof -
  have "{i. i < n \<and> P ([0..<n] ! i)} = {k. k < n \<and> P k}" by auto
  then show ?thesis by (simp add: length_filter_conv_card)
qed

text \<open>Before the first incorrect turn the soft loop adds a full point per turn.\<close>

lemma soft_loop_all_match:
  "indices_in_range df idxs \<Longrightarrow> \<forall>i \<in> set idxs. turn_fully_matches df i \<Longrightarrow>
   soft_average_turn_success_rate_loop df idxs score None = Inr (score + real (length idxs))"
proof (induction idxs arbitrary: score)
  case Nil
  then show ?case by simp
next
  case (Cons i idxs)
  then show ?case
    by (auto simp: indices_in_range_Cons zip_pred_truth_in_range list_all_zip_equal
        turn_fully_matches_def)
qed

lemmas sample_defs =
  sample_state_def sample_turn_def late_error_def short_log_def no_turns_def all_correct_def
  extra_state_def early_error_def

lemmas rate_defs =
  task_process_rate_def average_turn_success_rate_def soft_average_turn_success_rate_def
  zip_pred_truth_def getitem_def truediv_def

section \<open>task\_process\_rate\<close>

text \<open>
  Claim C3, as the code has it. For every transcript whose ground-truth log has more
  entries than there are turns, \<open>task_process_rate\<close> returns, at the first turn whose
  positional comparison against \<^verbatim>\<open>ground_truth_log[turn_idx + 1]\<close> finds an unequal pair,
  that turn's zero-based index divided by the number of turns, a value in \<open>[0, 1)\<close>; it
  returns positive infinity exactly when no turn mismatches; and these are the only two
  outcomes.
\<close>

theorem task_process_rate_outcomes:
  assumes "length (turn_responses df) < length (ground_truth_log df)"
  shows "(\<forall>k. k < length (turn_responses df) \<and> \<not> turn_fully_matches df k
              \<and> (\<forall>j<k. turn_fully_matches df j)
            \<longrightarrow> task_process_rate df = Inr (Finite (real k / real (length (turn_responses df))))
                \<and> 0 \<le> real k / real (length (turn_responses df))
                \<and> real k / real (length (turn_responses df)) < 1)
       \<and> ((\<forall>k<length (turn_responses df). turn_fully_matches df k)
            \<longleftrightarrow> task_process_rate df = Inr Infinity)
       \<and> (task_process_rate df = Inr Infinity
          \<or> (\<exists>k<length (turn_responses df).
                task_process_rate df = Inr (Finite (real k / real (length (turn_responses df))))
                \<and> \<not> turn_fully_matches df k \<and> (\<forall>j<k. turn_fully_matches df j)))"
proof -
  let ?n = "length (turn_responses df)"
  let ?P = "\<lambda>k. \<not> turn_fully_matches df k"
  have loop: "task_process_rate df =
      (case List.find ?P [0..<?n] of None \<Rightarrow> Inr Infinity
       | Some k \<Rightarrow> Inr (Finite (real k / real ?n)))"
    unfolding task_process_rate_def
    by (rule task_process_rate_loop_find) (rule indices_in_range_upt [OF assms])
  have first: "task_process_rate df = Inr (Finite (real k / real ?n))
      \<and> 0 \<le> real k / real ?n \<and> real k / real ?n < 1"
    if "k < ?n" "?P k" "\<forall>j<k. turn_fully_matches df j" for k
  proof -
    have "List.find ?P [0..<?n] = Some k"
      using that by (simp add: find_upt_Some)
    moreover have "real k / real ?n < 1"
      using that(1) by (simp add: divide_less_eq_1)
    ultimately show ?thesis by (simp add: loop)
  qed
  have inf: "(\<forall>k<?n. turn_fully_matches df k) \<longleftrightarrow> task_process_rate df = Inr Infinity"
  proof (cases "List.find ?P [0..<?n]")
    case None
    then have "\<forall>k<?n. turn_fully_matches df k" by (simp add: find_upt_None)
    moreover have "task_process_rate df = Inr Infinity" using None by (simp add: loop)
    ultimately show ?thesis by simp
  next
    case (Some k)
    then have "k < ?n \<and> ?P k" by (simp add: find_upt_Some)
    then show ?thesis using Some loop by auto
  qed
  have only: "task_process_rate df = Inr Infinity
      \<or> (\<exists>k<?n. task_process_rate df = Inr (Finite (real k / real ?n))
            \<and> ?P k \<and> (\<forall>j<k. turn_fully_matches df j))"
  proof (cases "List.find ?P [0..<?n]")
    case None
    then show ?thesis by (simp add: loop)
  next
    case (Some k)
    then have "k < ?n \<and> ?P k \<and> (\<forall>j<k. turn_fully_matches df j)"
      by (simp add: find_upt_Some)
    then show ?thesis using Some loop by auto
  qed
  show ?thesis using first inf only by blast
qed

theorem task_process_rate_outcomes_witness:
  "length (turn_responses late_error) < length (ground_truth_log late_error)
   \<and> turn_fully_matches late_error 0 \<and> \<not> turn_fully_matches late_error 1
   \<and> task_process_rate late_error = Inr (Finite (1 / 3))"
proof -
  have len: "length (turn_responses late_error) < length (ground_truth_log late_error)"
    by (simp add: sample_defs)
  have m0: "turn_fully_matches late_error 0"
    by (simp add: turn_fully_matches_def sample_defs)
  have m1: "\<not> turn_fully_matches late_error 1"
    by (simp add: turn_fully_matches_def sample_defs)
  have before: "\<forall>j<1. turn_fully_matches late_error j"
    using m0 by simp
  have n: "length (turn_responses late_error) = 3"
    by (simp add: sample_defs)
  from task_process_rate_outcomes [OF len]
  have "1 < length (turn_responses late_error) \<and> \<not> turn_fully_matches late_error 1
          \<and> (\<forall>j<1. turn_fully_matches late_error j)
        \<longrightarrow> task_process_rate late_error
              = Inr (Finite (real 1 / real (length (turn_responses late_error))))"
    by blast
  then show ?thesis using len m0 m1 before n by simp
qed

text \<open>
  With one turn and an empty ground-truth log the lookup \<^verbatim>\<open>ground_truth_log[1]\<close> raises
  IndexError: a third outcome.
\<close>

theorem task_process_rate_short_log:
  "task_process_rate short_log = Inl IndexError"
  by (simp add: rate_defs sample_defs)

section \<open>average\_turn\_success\_rate\<close>

text \<open>
  Claim C4, as the code has it. With zero turns \<open>average_turn_success_rate\<close> fails with
  a division by zero. For every transcript with at least one turn whose ground-truth log
  has more entries than there are turns, it equals the proportion of turns for which
  every positional pair of predicted and ground-truth entries is structurally equal, and
  this value lies in \<open>[0, 1]\<close>.
\<close>

theorem average_turn_success_rate_proportion:
  "(turn_responses df = [] \<longrightarrow> average_turn_success_rate df = Inl ZeroDivisionError)
   \<and> (turn_responses df \<noteq> [] \<and> length (turn_responses df) < length (ground_truth_log df)
      \<longrightarrow> average_turn_success_rate df =
            Inr (real (card {k. k < length (turn_responses df) \<and> turn_fully_matches df k})
                 / real (length (turn_responses df)))
          \<and> 0 \<le> real (card {k. k < length (turn_responses df) \<and> turn_fully_matches df k})
                 / real (length (turn_responses df))
          \<and> real (card {k. k < length (turn_responses df) \<and> turn_fully_matches df k})
                 / real (length (turn_responses df)) \<le> 1)"
proof -
  let ?n = "length (turn_responses df)"
  let ?S = "{k. k < ?n \<and> turn_fully_matches df k}"
  have empty: "average_turn_success_rate df = Inl ZeroDivisionError" if "turn_responses df = []"
    using that by (simp add: average_turn_success_rate_def truediv_def)
  have rate: "average_turn_success_rate df = Inr (real (card ?S) / real ?n)"
    if "turn_responses df \<noteq> []" "?n < length (ground_truth_log df)"
    using that
    by (simp add: average_turn_success_rate_def truediv_def length_filter_upt
        average_turn_success_rate_loop_count [OF indices_in_range_upt])
  have "card ?S \<le> card {k. k < ?n}"
    by (rule card_mono) auto
  then have le: "card ?S \<le> ?n" by simp
  have bound: "real (card ?S) / real ?n \<le> 1" if "turn_responses df \<noteq> []"
    using le that by (simp add: divide_le_eq_1)
  show ?thesis using empty rate bound by simp
qed

theorem average_turn_success_rate_proportion_witness:
  "turn_responses late_error \<noteq> []
   \<and> length (turn_responses late_error) < length (ground_truth_log late_error)
   \<and> average_turn_success_rate late_error = Inr (2 / 3)
   \<and> real (card {k. k < length (turn_responses late_error) \<and> turn_fully_matches late_error k})
       / real (length (turn_responses late_error)) = 2 / 3
   \<and> turn_responses no_turns = []
   \<and> average_turn_success_rate no_turns = Inl ZeroDivisionError"
proof -
  have ne: "turn_responses late_error \<noteq> []"
    by (simp add: sample_defs)
  have len: "length (turn_responses late_error) < length (ground_truth_log late_error)"
    by (simp add: sample_defs)
  have run: "average_turn_success_rate late_error = Inr (2 / 3)"
    by (simp add: rate_defs sample_defs upt_rec)
  have none: "turn_responses no_turns = []"
    by (simp add: sample_defs)
  from average_turn_success_rate_proportion [of late_error] ne len
  have "average_turn_success_rate late_error =
      Inr (real (card {k. k < length (turn_responses late_error)
                          \<and> turn_fully_matches late_error k})
           / real (length (turn_responses late_error)))"
    by blast
  with run have "real (card {k. k < length (turn_responses late_error)
                                \<and> turn_fully_matches late_error k})
      / real (length (turn_responses late_error)) = 2 / 3"
    by simp
  moreover from average_turn_success_rate_proportion [of no_turns] none
  have "average_turn_success_rate no_turns = Inl ZeroDivisionError"
    by blast
  ultimately show ?thesis using ne len run none by simp
qed

text \<open>
  With one turn and an empty ground-truth log the function raises IndexError instead of
  returning a proportion.
\<close>

theorem average_turn_success_rate_short_log:
  "average_turn_success_rate short_log = Inl IndexError"
  by (simp add: rate_defs sample_defs)

section \<open>Transcripts without an incorrect turn\<close>

text \<open>
  Claim C6. For every transcript with at least one turn in which every turn's positional
  state comparison fully matches the ground truth, \<open>soft_average_turn_success_rate\<close> and
  \<open>average_turn_success_rate\<close> are equal and both are exactly 1.
\<close>

theorem all_turns_match_rates_one:
  assumes "turn_responses df \<noteq> []"
    and "\<forall>k<length (turn_responses df).
           k + 1 < length (ground_truth_log df) \<and> turn_fully_matches df k"
  shows "soft_average_turn_success_rate df = Inr 1 \<and> average_turn_success_rate df = Inr 1
         \<and> soft_average_turn_success_rate df = average_turn_success_rate df"
proof -
  let ?n = "length (turn_responses df)"
  have range: "indices_in_range df [0..<?n]"
    using assms(2) by (simp add: indices_in_range_def)
  have all: "\<forall>i \<in> set [0..<?n]. turn_fully_matches df i"
    using assms(2) by simp
  have pos: "?n \<noteq> 0" using assms(1) by simp
  have soft: "soft_average_turn_success_rate df = Inr 1"
    using pos by (simp add: soft_average_turn_success_rate_def soft_loop_all_match [OF range all]
        truediv_def)
  have "filter (turn_fully_matches df) [0..<?n] = [0..<?n]"
    using all by (simp only: filter_id_conv)
  then have avg: "average_turn_success_rate df = Inr 1"
    using pos by (simp add: average_turn_success_rate_def truediv_def
        average_turn_success_rate_loop_count [OF range])
  show ?thesis using soft avg by simp
qed

theorem all_turns_match_rates_one_witness:
  "turn_responses all_correct \<noteq> []
   \<and> turn_fully_matches all_correct 0 \<and> turn_fully_matches all_correct 1
   \<and> soft_average_turn_success_rate all_correct = Inr 1
   \<and> average_turn_success_rate all_correct = Inr 1"
proof -
  have ne: "turn_responses all_correct \<noteq> []"
    by (simp add: sample_defs)
  have m0: "turn_fully_matches all_correct 0"
    by (simp add: turn_fully_matches_def sample_defs)
  have m1: "turn_fully_matches all_correct 1"
    by (simp add: turn_fully_matches_def sample_defs)
  have n: "length (turn_responses all_correct) = Suc (Suc 0)"
    by (simp add: sample_defs)
  have "\<forall>k<length (turn_responses all_correct).
      k + 1 < length (ground_truth_log all_correct) \<and> turn_fully_matches all_correct k"
    unfolding n using m0 m1 by (simp add: less_Suc_eq sample_defs)
  from all_turns_match_rates_one [OF ne this] show ?thesis
    using ne m0 m1 by simp
qed

section \<open>An early error\<close>

text \<open>Bounds on \<open>exp (- 1)\<close> from the Maclaurin series with 8 and with 7 terms.\<close>

lemma exp_minus_one_lower: "(103 / 280 :: real) < exp (- 1)"
proof -
  obtain t :: real where t: "exp (- 1) = (\<Sum>m<8. ((- 1) ^ m) / fact m) + (exp t / fact 8) * (- 1) ^ 8"
    using Maclaurin_exp_le [of "- 1" 8] by blast
  have "(\<Sum>m<8. ((- 1 :: real) ^ m) / fact m) = 103 / 280"
    by (simp add: eval_nat_numeral fact_numeral)
  moreover have "0 < (exp t / fact 8) * (- 1) ^ 8"
    by simp
  ultimately show ?thesis using t by linarith
qed

lemma exp_minus_one_upper: "exp (- 1) < (53 / 144 :: real)"
proof -
  obtain t :: real where t: "exp (- 1) = (\<Sum>m<7. ((- 1) ^ m) / fact m) + (exp t / fact 7) * (- 1) ^ 7"
    using Maclaurin_exp_le [of "- 1" 7] by blast
  have "(\<Sum>m<7. ((- 1 :: real) ^ m) / fact m) = 53 / 144"
    by (simp add: eval_nat_numeral fact_numeral)
  moreover have "(exp t / fact 7) * (- 1) ^ 7 < 0"
    by simp
  ultimately show ?thesis using t by linarith
qed

lemma exp_minus_two: "exp (- 2 :: real) = exp (- 1) * exp (- 1)"
  by (simp add: exp_add [symmetric])

lemma soft_scenario_value:
  "\<bar>(0 + (1 - exp (- 1)) + (1 - exp (- 2 :: real))) / 3 - 0.499\<bar> < 0.0005"
proof -
  define u :: real where "u = exp (- 1)"
  have lo: "103 / 280 < u" and hi: "u < 53 / 144"
    unfolding u_def by (rule exp_minus_one_lower, rule exp_minus_one_upper)
  have "103 / 280 * (103 / 280) < u * u"
    using lo by (intro mult_strict_mono) simp_all
  moreover have "u * u < 53 / 144 * (53 / 144)"
    using lo hi by (intro mult_strict_mono) simp_all
  moreover have "exp (- 2 :: real) = u * u"
    unfolding u_def by (rule exp_minus_two)
  ultimately show ?thesis using lo hi unfolding u_def [symmetric] by simp
qed

text \<open>
  Claim C5. For a transcript with 3 turns where turn 0 mismatches and turns 1 and 2 both
  fully match, \<open>task_process_rate\<close> returns \<open>0 / 3 = 0\<close>,
  \<open>average_turn_success_rate\<close> returns \<open>2 / 3\<close>, and
  \<open>soft_average_turn_success_rate\<close> returns
  \<open>(0 + (1 - exp (- 1)) + (1 - exp (- 2))) / 3\<close>, which is 0.499 to three decimals.
\<close>

theorem early_error_scenario:
  assumes "length (turn_responses df) = 3"
    and "0 + 1 < length (ground_truth_log df) \<and> \<not> turn_fully_matches df 0"
    and "1 + 1 < length (ground_truth_log df) \<and> turn_fully_matches df 1"
    and "2 + 1 < length (ground_truth_log df) \<and> turn_fully_matches df 2"
  shows "task_process_rate df = Inr (Finite (0 / 3))
       \<and> task_process_rate df = Inr (Finite 0)
       \<and> average_turn_success_rate df = Inr (2 / 3)
       \<and> soft_average_turn_success_rate df = Inr ((0 + (1 - exp (- 1)) + (1 - exp (- 2))) / 3)
       \<and> \<bar>(0 + (1 - exp (- 1)) + (1 - exp (- 2 :: real))) / 3 - 0.499\<bar> < 0.0005"
proof -
  have upt: "[0..<length (turn_responses df)] = [0, 1, 2]"
    by (simp add: assms(1) upt_rec)
  have z0: "zip_pred_truth df 0 =
      Inr (zip (end_of_turn_state (turn_responses df ! 0)) (ground_truth_log df ! (0 + 1)))"
    using assms(1,2) by (intro zip_pred_truth_in_range) simp_all
  have z1: "zip_pred_truth df 1 =
      Inr (zip (end_of_turn_state (turn_responses df ! 1)) (ground_truth_log df ! (1 + 1)))"
    using assms(1,3) by (intro zip_pred_truth_in_range) simp_all
  have z2: "zip_pred_truth df 2 =
      Inr (zip (end_of_turn_state (turn_responses df ! 2)) (ground_truth_log df ! (2 + 1)))"
    using assms(1,4) by (intro zip_pred_truth_in_range) simp_all
  have m0: "\<not> positional_pairs_equal (end_of_turn_state (turn_responses df ! 0))
      (ground_truth_log df ! (0 + 1))"
    using assms(2) by (simp add: turn_fully_matches_def)
  have m1: "positional_pairs_equal (end_of_turn_state (turn_responses df ! 1))
      (ground_truth_log df ! (1 + 1))"
    using assms(3) by (simp add: turn_fully_matches_def)
  have m2: "positional_pairs_equal (end_of_turn_state (turn_responses df ! 2))
      (ground_truth_log df ! (2 + 1))"
    using assms(4) by (simp add: turn_fully_matches_def)
  note zs = z0 [simplified] z1 [simplified] z2 [simplified]
  have tpr: "task_process_rate df = Inr (Finite 0)"
    unfolding task_process_rate_def upt
    using m0 by (simp add: zs list_ex_zip_differs truediv_def assms(1))
  have avg: "average_turn_success_rate df = Inr (2 / 3)"
    unfolding average_turn_success_rate_def upt
    using m0 m1 m2 by (simp add: zs list_all_zip_equal truediv_def assms(1))
  have soft: "soft_average_turn_success_rate df
      = Inr ((0 + (1 - exp (- 1)) + (1 - exp (- 2))) / 3)"
    unfolding soft_average_turn_success_rate_def upt
    using m0 m1 m2 by (simp add: zs list_all_zip_equal truediv_def assms(1))
  show ?thesis using tpr avg soft soft_scenario_value by simp
qed

theorem early_error_scenario_witness:
  "length (turn_responses early_error) = 3
   \<and> \<not> turn_fully_matches early_error 0
   \<and> turn_fully_matches early_error 1 \<and> turn_fully_matches early_error 2
   \<and> task_process_rate early_error = Inr (Finite 0)
   \<and> average_turn_success_rate early_error = Inr (2 / 3)
   \<and> soft_average_turn_success_rate early_error
       = Inr ((0 + (1 - exp (- 1)) + (1 - exp (- 2))) / 3)"
proof -
  have n: "length (turn_responses early_error) = 3"
    by (simp add: sample_defs)
  have t0: "0 + 1 < length (ground_truth_log early_error) \<and> \<not> turn_fully_matches early_error 0"
    by (simp add: turn_fully_matches_def sample_defs)
  have t1: "1 + 1 < length (ground_truth_log early_error) \<and> turn_fully_matches early_error 1"
    by (simp add: turn_fully_matches_def sample_defs)
  have t2: "2 + 1 < length (ground_truth_log early_error) \<and> turn_fully_matches early_error 2"
    by (simp add: turn_fully_matches_def sample_defs)
  from early_error_scenario [OF n t0 t1 t2] show ?thesis
    using n t0 t1 t2 by simp
qed

section \<open>Snapshots of different lengths\<close>

lemma positional_pairs_equal_commute:
  "positional_pairs_equal xs ys = positional_pairs_equal ys xs"
  by (auto simp: positional_pairs_equal_def)

lemma fold_mark_equal_pairs:
  "list_all (\<lambda>(gt_state, turn_state). gt_state = turn_state) pairs \<Longrightarrow>
   fold (\<lambda>(gt_state, turn_state) st.
           if gt_state \<noteq> turn_state then AList.update (class_name gt_state) Mismatch st
           else st) pairs state = state"
  by (induction pairs arbitrary: state) auto

lemma mark_turn_equal_pairs:
  "positional_pairs_equal gt_states turn_states \<Longrightarrow> mark_turn gt_states turn_states state = state"
  unfolding mark_turn_def
  by (rule fold_mark_equal_pairs) (simp add: list_all_zip_equal)

text \<open>
  Claim C10. In every per-turn comparison of the four functions the predicted
  end-of-turn state and the ground-truth snapshot are compared pairwise up to the length
  of the shorter one. For every turn where the two lengths differ and all shared positions
  are structurally equal, the turn counts as fully matching: \<open>task_process_rate\<close> does
  not return at it, \<open>average_turn_success_rate\<close> adds one to the score,
  \<open>soft_average_turn_success_rate\<close> adds the contribution of a correct turn, and
  \<open>check_api_state_mismatch\<close> leaves \<open>state\<close> unchanged.
\<close>

theorem shorter_snapshot_counts_as_match:
  assumes "k < length (turn_responses df)" and "k + 1 < length (ground_truth_log df)"
    and "length (end_of_turn_state (turn_responses df ! k))
           \<noteq> length (ground_truth_log df ! (k + 1))"
    and "\<forall>j<min (length (end_of_turn_state (turn_responses df ! k)))
                 (length (ground_truth_log df ! (k + 1))).
           end_of_turn_state (turn_responses df ! k) ! j = ground_truth_log df ! (k + 1) ! j"
  shows "(\<exists>pairs. zip_pred_truth df k = Inr pairs
            \<and> length pairs = min (length (end_of_turn_state (turn_responses df ! k)))
                                 (length (ground_truth_log df ! (k + 1)))
            \<and> (\<forall>j<length pairs. pairs ! j = (end_of_turn_state (turn_responses df ! k) ! j,
                                              ground_truth_log df ! (k + 1) ! j)))
       \<and> task_process_rate_loop df (k # rest) = task_process_rate_loop df rest
       \<and> average_turn_success_rate_loop df (k # rest) score
           = average_turn_success_rate_loop df rest (score + 1)
       \<and> soft_average_turn_success_rate_loop df (k # rest) soft_score last_incorrect_turn
           = soft_average_turn_success_rate_loop df rest
               (soft_score + (case last_incorrect_turn of
                                None \<Rightarrow> 1
                              | Some l \<Rightarrow> if k < l then 1 else 1 - exp (- (real k - real l))))
               last_incorrect_turn
       \<and> compare_turns df ((k, turn_responses df ! k) # later) state
           = compare_turns df later state"
proof -
  let ?pred = "end_of_turn_state (turn_responses df ! k)"
  let ?truth = "ground_truth_log df ! (k + 1)"
  have eq: "positional_pairs_equal ?pred ?truth"
    using assms(4) by (simp add: positional_pairs_equal_def)
  have zip: "zip_pred_truth df k = Inr (zip ?pred ?truth)"
    using assms(1,2) by (rule zip_pred_truth_in_range)
  have pairs: "\<exists>pairs. zip_pred_truth df k = Inr pairs
      \<and> length pairs = min (length ?pred) (length ?truth)
      \<and> (\<forall>j<length pairs. pairs ! j = (?pred ! j, ?truth ! j))"
    by (simp add: zip)
  have tpr: "task_process_rate_loop df (k # rest) = task_process_rate_loop df rest"
    using eq by (simp add: zip list_ex_zip_differs)
  have avg: "average_turn_success_rate_loop df (k # rest) score
      = average_turn_success_rate_loop df rest (score + 1)"
    using eq by (simp add: zip list_all_zip_equal)
  have soft: "soft_average_turn_success_rate_loop df (k # rest) soft_score last_incorrect_turn
      = soft_average_turn_success_rate_loop df rest
          (soft_score + (case last_incorrect_turn of
                           None \<Rightarrow> 1
                         | Some l \<Rightarrow> if k < l then 1 else 1 - exp (- (real k - real l))))
          last_incorrect_turn"
    using eq by (simp add: zip list_all_zip_equal split: option.split)
  have "mark_turn ?truth ?pred state = state"
    using eq by (simp add: mark_turn_equal_pairs positional_pairs_equal_commute)
  then have cmp: "compare_turns df ((k, turn_responses df ! k) # later) state
      = compare_turns df later state"
    using assms(2) by (simp add: getitem_def)
  show ?thesis using pairs tpr avg soft cmp by simp
qed

theorem shorter_snapshot_counts_as_match_witness:
  "0 < length (turn_responses extra_state) \<and> 0 + 1 < length (ground_truth_log extra_state)
   \<and> length (end_of_turn_state (turn_responses extra_state ! 0)) = 2
   \<and> length (ground_truth_log extra_state ! (0 + 1)) = 1
   \<and> end_of_turn_state (turn_responses extra_state ! 0) ! 0
       = ground_truth_log extra_state ! (0 + 1) ! 0
   \<and> task_process_rate_loop extra_state [0] = Inr Infinity
   \<and> average_turn_success_rate_loop extra_state [0] 0 = Inr 1
   \<and> soft_average_turn_success_rate_loop extra_state [0] 0 None = Inr 1
   \<and> compare_turns extra_state [(0, turn_responses extra_state ! 0)] [] = Inr []"
proof -
  have k: "0 < length (turn_responses extra_state)"
    by (simp add: sample_defs)
  have g: "0 + 1 < length (ground_truth_log extra_state)"
    by (simp add: sample_defs)
  have lp: "length (end_of_turn_state (turn_responses extra_state ! 0)) = 2"
    by (simp add: sample_defs)
  have lt: "length (ground_truth_log extra_state ! (0 + 1)) = 1"
    by (simp add: sample_defs)
  have ne: "length (end_of_turn_state (turn_responses extra_state ! 0))
      \<noteq> length (ground_truth_log extra_state ! (0 + 1))"
    using lp lt by simp
  have first: "end_of_turn_state (turn_responses extra_state ! 0) ! 0
      = ground_truth_log extra_state ! (0 + 1) ! 0"
    by (simp add: sample_defs)
  have shared: "\<forall>j<min (length (end_of_turn_state (turn_responses extra_state ! 0)))
                       (length (ground_truth_log extra_state ! (0 + 1))).
      end_of_turn_state (turn_responses extra_state ! 0) ! j
        = ground_truth_log extra_state ! (0 + 1) ! j"
    unfolding lp lt using first by simp
  from shorter_snapshot_counts_as_match [OF k g ne shared, of "[]" 0 0 None "[]" "[]"]
  show ?thesis using k g lp lt first by simp
qed

section \<open>no\_func\_call\_rate\<close>

lemmas step_defs = text_step_def call_step_def steps_turn_def mixed_steps_def tool_run_def

lemma scan_steps_takeWhile:
  "scan_steps steps c = c + length (steps_before_first_call steps)"
  by (induction steps arbitrary: c) (auto simp: steps_before_first_call_def)

lemma fold_scan_steps:
  "fold (\<lambda>turn_response c. scan_steps (step_responses turn_response) c) turns c =
     c + sum_list (map (\<lambda>turn_response.
                          length (steps_before_first_call (step_responses turn_response))) turns)"
  by (induction turns arbitrary: c) (simp_all add: scan_steps_takeWhile)

text \<open>
  Claim C9. For every transcript with at least one turn, \<open>no_func_call_rate\<close> equals
  \<open>N\<close> divided by the number of turns, where \<open>N\<close> counts, over all turns, each step
  before the first step of that turn that carries the key \<^verbatim>\<open>handler_response\<close>.
\<close>

theorem no_func_call_rate_counts_steps:
  assumes "turn_responses df \<noteq> []"
  shows "no_func_call_rate df =
           Inr (real (sum_list (map (\<lambda>turn_response.
                                       length (steps_before_first_call
                                                 (step_responses turn_response)))
                                    (turn_responses df)))
                / real (length (turn_responses df)))"
  using assms by (simp add: no_func_call_rate_def fold_scan_steps truediv_def)

theorem no_func_call_rate_counts_steps_witness:
  "turn_responses mixed_steps \<noteq> []
   \<and> map (\<lambda>turn_response. length (steps_before_first_call (step_responses turn_response)))
         (turn_responses mixed_steps) = [1, 2]
   \<and> no_func_call_rate mixed_steps = Inr (3 / 2)"
proof -
  have ne: "turn_responses mixed_steps \<noteq> []"
    by (simp add: step_defs)
  have counts: "map (\<lambda>turn_response.
                       length (steps_before_first_call (step_responses turn_response)))
                    (turn_responses mixed_steps) = [1, 2]"
    by (simp add: step_defs steps_before_first_call_def)
  have n: "length (turn_responses mixed_steps) = 2"
    by (simp add: step_defs)
  from no_func_call_rate_counts_steps [OF ne] show ?thesis
    unfolding counts n using ne by simp
qed

section \<open>Tool errors counted\<close>

lemma has_error_in_tool_response_iff:
  "has_error_in_tool_response parse tool_resp = is_error_entry parse tool_resp"
proof (cases "content tool_resp")
  case PyNone
  then show ?thesis
    by (simp add: has_error_in_tool_response_def is_error_entry_def json_loads_def)
next
  case (PyStr s)
  show ?thesis
  proof (cases "parse s")
    case (Inl e)
    then show ?thesis using PyStr
      by (simp add: has_error_in_tool_response_def is_error_entry_def json_loads_def)
  next
    case (Inr j)
    then show ?thesis using PyStr
      by (cases j) (auto simp: has_error_in_tool_response_def is_error_entry_def json_loads_def)
  qed
qed

lemma count_tool_response_eq:
  "count_tool_response parse tool_resp n =
     (if has_error_in_tool_response parse tool_resp then n + 1 else n)"
  by (simp add: count_tool_response_def has_error_in_tool_response_def
      split: sum.split)

lemma fold_count_tool_response:
  "fold (count_tool_response parse) entries n =
     n + length (filter (is_error_entry parse) entries)"
  by (induction entries arbitrary: n)
    (simp_all add: count_tool_response_eq has_error_in_tool_response_iff)

lemma fold_steps_count:
  "fold (\<lambda>step n. fold (count_tool_response parse) (tool_response step) n) steps n =
     n + sum_list (map (\<lambda>step. length (filter (is_error_entry parse) (tool_response step)))
                       steps)"
  by (induction steps arbitrary: n) (simp_all add: fold_count_tool_response)

lemma fold_turns_count:
  "fold (\<lambda>turn_response n.
           fold (\<lambda>step n. fold (count_tool_response parse) (tool_response step) n)
                (step_responses turn_response) n) turns n =
     n + sum_list (map (\<lambda>turn_response.
             sum_list (map (\<lambda>step. length (filter (is_error_entry parse) (tool_response step)))
                           (step_responses turn_response))) turns)"
  by (induction turns arbitrary: n) (simp_all add: fold_steps_count)

lemma turn_any_error_iff:
  "list_ex (\<lambda>step. list_ex (has_error_in_tool_response parse) (tool_response step))
     (step_responses turn_response) = turn_has_error_entry parse turn_response"
  by (simp add: list_ex_iff turn_has_error_entry_def has_error_in_tool_response_iff)

lemma fold_turns_with_error:
  "fold (\<lambda>turn_response n.
           if list_ex (\<lambda>step. list_ex (has_error_in_tool_response parse) (tool_response step))
                (step_responses turn_response)
           then n + 1 else n) turns n =
     n + length (filter (turn_has_error_entry parse) turns)"
  by (induction turns arbitrary: n) (simp_all add: turn_any_error_iff)

text \<open>
  Claim C8. \<open>num_tool_errors\<close> counts the tool-response entries whose content parses as
  a JSON object with an \<^verbatim>\<open>"error"\<close> key, and \<open>num_turn_with_errors\<close> counts the turns
  with at least one such entry, each turn at most once. An entry whose content fails to
  parse is counted by neither, and neither function can fault on it.
\<close>

theorem tool_error_counts:
  "num_tool_errors parse df =
     sum_list (map (\<lambda>turn_response.
        sum_list (map (\<lambda>step. length (filter (is_error_entry parse) (tool_response step)))
                      (step_responses turn_response)))
        (turn_responses df))
   \<and> num_turn_with_errors parse df
       = length (filter (turn_has_error_entry parse) (turn_responses df))
   \<and> num_turn_with_errors parse df \<le> length (turn_responses df)
   \<and> (\<forall>tool_resp s e. content tool_resp = PyStr s \<and> parse s = Inl e
         \<longrightarrow> \<not> is_error_entry parse tool_resp
            \<and> count_tool_response parse tool_resp n = n
            \<and> \<not> has_error_in_tool_response parse tool_resp)"
proof -
  have errors: "num_tool_errors parse df =
      sum_list (map (\<lambda>turn_response.
        sum_list (map (\<lambda>step. length (filter (is_error_entry parse) (tool_response step)))
                      (step_responses turn_response)))
        (turn_responses df))"
    by (simp add: num_tool_errors_def fold_turns_count)
  have turns: "num_turn_with_errors parse df
      = length (filter (turn_has_error_entry parse) (turn_responses df))"
    by (simp add: num_turn_with_errors_def fold_turns_with_error)
  have bound: "num_turn_with_errors parse df \<le> length (turn_responses df)"
    by (simp add: turns)
  have skip: "\<not> is_error_entry parse tool_resp
      \<and> count_tool_response parse tool_resp n = n
      \<and> \<not> has_error_in_tool_response parse tool_resp"
    if "content tool_resp = PyStr s" "parse s = Inl e" for tool_resp s e
    using that
    by (simp add: is_error_entry_def count_tool_response_def has_error_in_tool_response_def
        json_loads_def)
  show ?thesis using errors turns bound skip by blast
qed

theorem tool_error_counts_witness:
  "sample_parse error_text = Inr (JObject [(''error'', JString ''timeout'')])
   \<and> sample_parse ''not json'' = Inl JSONDecodeError
   \<and> num_tool_errors sample_parse tool_run = 2
   \<and> num_turn_with_errors sample_parse tool_run = 1
   \<and> length (filter (turn_has_error_entry sample_parse) (turn_responses tool_run)) = 1
   \<and> \<not> is_error_entry sample_parse \<lparr>content = PyStr ''not json''\<rparr>"
proof -
  have p1: "sample_parse error_text = Inr (JObject [(''error'', JString ''timeout'')])"
    by (simp add: sample_parse_def)
  have p2: "sample_parse ''not json'' = Inl JSONDecodeError"
    by (simp add: sample_parse_def error_text_def)
  have e: "num_tool_errors sample_parse tool_run = 2"
    by (simp add: num_tool_errors_def step_defs count_tool_response_def json_loads_def p1 p2)
  have t: "num_turn_with_errors sample_parse tool_run = 1"
    by (simp add: num_turn_with_errors_def step_defs has_error_in_tool_response_def
        json_loads_def p1 p2)
  note inst = tool_error_counts [of sample_parse tool_run 0]
  have c: "length (filter (turn_has_error_entry sample_parse) (turn_responses tool_run)) = 1"
    using inst t by simp
  have "content \<lparr>content = PyStr ''not json''\<rparr> = PyStr ''not json''
        \<and> sample_parse ''not json'' = Inl JSONDecodeError
      \<longrightarrow> \<not> is_error_entry sample_parse \<lparr>content = PyStr ''not json''\<rparr>"
    using inst by blast
  then have s: "\<not> is_error_entry sample_parse \<lparr>content = PyStr ''not json''\<rparr>"
    using p2 by simp
  show ?thesis using p1 p2 e t c s by simp
qed

section \<open>A closing message that is null\<close>

lemma no_phrase_in_none:
  "\<not> list_ex (\<lambda>phrase. sublist phrase ''none'') APOLOGETIC_SUBSTRING"
  by (simp add: APOLOGETIC_SUBSTRING_def sublist_Cons_right prefix_Cons)

lemma no_lowered_phrase_in_none:
  assumes "map lower APOLOGETIC_SUBSTRING = APOLOGETIC_SUBSTRING"
  shows "\<not> list_ex (\<lambda>phrase. sublist (lower phrase) ''none'') APOLOGETIC_SUBSTRING"
proof -
  have "list_ex (\<lambda>phrase. sublist (lower phrase) ''none'') APOLOGETIC_SUBSTRING
      = list_ex (\<lambda>phrase. sublist phrase ''none'') (map lower APOLOGETIC_SUBSTRING)"
    by (simp add: list_ex_iff)
  then show ?thesis using assms no_phrase_in_none by simp
qed

lemma apologetic_loop_null:
  assumes "lower ''None'' = ''none''" and "map lower APOLOGETIC_SUBSTRING = APOLOGETIC_SUBSTRING"
  shows "\<forall>turn_response \<in> set turns.
           \<exists>final_step. getitem_last (step_responses turn_response) = Inr final_step
             \<and> assistant_response final_step = Some \<lparr>content = PyNone\<rparr>
         \<Longrightarrow> apologetic_loop lower turns = Inr False"
proof (induction turns)
  case Nil
  then show ?case by simp
next
  case (Cons t turns)
  then obtain final_step where "getitem_last (step_responses t) = Inr final_step"
      "assistant_response final_step = Some \<lparr>content = PyNone\<rparr>"
    by auto
  then have "turn_summary t = Inr ''None''"
    by (simp add: turn_summary_def py_str_def)
  then show ?case
    using Cons assms(1) no_lowered_phrase_in_none [OF assms(2)]
    by (simp add: str_is_None_def)
qed

text \<open>
  Claim C7, at the inputs where the code departs from it. When the closing message of
  every turn is \<^verbatim>\<open>None\<close>, \<open>apologetic\<close> returns false: \<^verbatim>\<open>str\<close> turns the
  message into the text \<^verbatim>\<open>None\<close> before the test \<^verbatim>\<open>turn_summary is None\<close>, and that
  text contains no phrase of the list. The hypotheses on \<open>lower\<close> hold for Python's
  \<^verbatim>\<open>str.lower\<close>.
\<close>

theorem apologetic_null_content:
  assumes "lower ''None'' = ''none''" and "map lower APOLOGETIC_SUBSTRING = APOLOGETIC_SUBSTRING"
    and "turn_responses df \<noteq> []"
    and "\<forall>turn_response \<in> set (turn_responses df).
           \<exists>final_step. getitem_last (step_responses turn_response) = Inr final_step
             \<and> assistant_response final_step = Some \<lparr>content = PyNone\<rparr>"
  shows "apologetic lower df = Inr False"
  unfolding apologetic_def using assms(4) by (rule apologetic_loop_null [OF assms(1,2)])

theorem apologetic_null_content_witness:
  "ascii_lower ''None'' = ''none''
   \<and> map ascii_lower APOLOGETIC_SUBSTRING = APOLOGETIC_SUBSTRING
   \<and> turn_responses null_reply \<noteq> []
   \<and> apologetic ascii_lower null_reply = Inr False"
proof -
  have l: "ascii_lower ''None'' = ''none''"
    by code_simp
  have p: "map ascii_lower APOLOGETIC_SUBSTRING = APOLOGETIC_SUBSTRING"
    by code_simp
  have ne: "turn_responses null_reply \<noteq> []"
    by (simp add: null_reply_def)
  have final: "\<forall>turn_response \<in> set (turn_responses null_reply).
      \<exists>final_step. getitem_last (step_responses turn_response) = Inr final_step
        \<and> assistant_response final_step = Some \<lparr>content = PyNone\<rparr>"
    by (simp add: null_reply_def steps_turn_def getitem_last_def)
  from apologetic_null_content [OF l p ne final] show ?thesis
    using l p ne by simp
qed

section \<open>The dict of check\_api\_state\_mismatch\<close>

lemma keeps_api_keys_update:
  "keeps_api_keys state \<Longrightarrow> keeps_api_keys (AList.update k v state)"
  by (auto simp: keeps_api_keys_def update_keys distinct_update prefix_def)

lemma keeps_api_keys_fold_update:
  "keeps_api_keys state \<Longrightarrow> keeps_api_keys (fold (\<lambda>api st. AList.update api v st) ks state)"
  by (induction ks arbitrary: state) (simp_all add: keeps_api_keys_update)

lemma map_of_fold_update:
  "map_of (fold (\<lambda>api st. AList.update api v st) ks state) a =
     (if a \<in> set ks then Some v else map_of state a)"
  by (induction ks arbitrary: state) (auto simp: update_conv')

lemma keeps_api_keys_fold_mark:
  "keeps_api_keys state \<Longrightarrow>
   keeps_api_keys (fold (\<lambda>(gt_state, turn_state) st.
       if gt_state \<noteq> turn_state then AList.update (class_name gt_state) Mismatch st else st)
     pairs state)"
  by (induction pairs arbitrary: state) (auto simp: keeps_api_keys_update)

lemma map_of_fold_mark:
  "map_of (fold (\<lambda>(gt_state, turn_state) st.
       if gt_state \<noteq> turn_state then AList.update (class_name gt_state) Mismatch st else st)
     pairs state) a =
   (if \<exists>(gt_state, turn_state) \<in> set pairs. gt_state \<noteq> turn_state \<and> class_name gt_state = a
    then Some Mismatch else map_of state a)"
  by (induction pairs arbitrary: state) (auto simp: update_conv' split: if_splits)

lemma zip_pair_mismatch:
  "(\<exists>(gt_state, turn_state) \<in> set (zip gt_states turn_states).
       gt_state \<noteq> turn_state \<and> class_name gt_state = a)
   = pair_mismatch gt_states turn_states a"
proof
  assume "\<exists>(gt_state, turn_state) \<in> set (zip gt_states turn_states).
      gt_state \<noteq> turn_state \<and> class_name gt_state = a"
  then obtain g t where in_zip: "(g, t) \<in> set (zip gt_states turn_states)"
    and diff: "g \<noteq> t" "class_name g = a"
    by blast
  from in_zip obtain j where "j < length gt_states" "j < length turn_states"
    "gt_states ! j = g" "turn_states ! j = t"
    by (auto simp: in_set_zip)
  then show "pair_mismatch gt_states turn_states a"
    unfolding pair_mismatch_def using diff by blast
next
  assume "pair_mismatch gt_states turn_states a"
  then obtain j where j: "j < length gt_states" "j < length turn_states"
    "gt_states ! j \<noteq> turn_states ! j" "class_name (gt_states ! j) = a"
    unfolding pair_mismatch_def by blast
  then have "(gt_states ! j, turn_states ! j) \<in> set (zip gt_states turn_states)"
    by (simp add: in_set_zip) blast
  then show "\<exists>(gt_state, turn_state) \<in> set (zip gt_states turn_states).
      gt_state \<noteq> turn_state \<and> class_name gt_state = a"
    using j(3,4) by blast
qed

lemma map_of_mark_turn:
  "map_of (mark_turn gt_states turn_states state) a =
     (if pair_mismatch gt_states turn_states a then Some Mismatch else map_of state a)"
  unfolding mark_turn_def map_of_fold_mark zip_pair_mismatch ..

lemma keeps_api_keys_mark_turn:
  "keeps_api_keys state \<Longrightarrow> keeps_api_keys (mark_turn gt_states turn_states state)"
  unfolding mark_turn_def by (rule keeps_api_keys_fold_mark)

lemma compare_turns_map:
  "\<forall>(k, t) \<in> set later. k + 1 < length (ground_truth_log df) \<Longrightarrow> keeps_api_keys state \<Longrightarrow>
   \<exists>state'. compare_turns df later state = Inr state' \<and> keeps_api_keys state'
     \<and> (\<forall>a. map_of state' a =
            (if \<exists>(k, t) \<in> set later.
                  pair_mismatch (ground_truth_log df ! (k + 1)) (end_of_turn_state t) a
             then Some Mismatch else map_of state a))"
proof (induction later arbitrary: state)
  case Nil
  then show ?case by simp
next
  case (Cons kt later)
  obtain k t where kt: "kt = (k, t)" by (cases kt)
  let ?next = "mark_turn (ground_truth_log df ! (k + 1)) (end_of_turn_state t) state"
  have in_range: "k + 1 < length (ground_truth_log df)"
    using Cons.prems(1) kt by simp
  have rest: "\<forall>(k, t) \<in> set later. k + 1 < length (ground_truth_log df)"
    using Cons.prems(1) by simp
  have keys: "keeps_api_keys ?next"
    using Cons.prems(2) by (rule keeps_api_keys_mark_turn)
  from Cons.IH [OF rest keys] obtain state' where
    run: "compare_turns df later ?next = Inr state'" and k': "keeps_api_keys state'"
    and m: "\<forall>a. map_of state' a =
            (if \<exists>(k, t) \<in> set later.
                  pair_mismatch (ground_truth_log df ! (k + 1)) (end_of_turn_state t) a
             then Some Mismatch else map_of ?next a)"
    by blast
  have "compare_turns df (kt # later) state = Inr state'"
    using run in_range by (simp add: kt getitem_def)
  moreover have "\<forall>a. map_of state' a =
            (if \<exists>(k, t) \<in> set (kt # later).
                  pair_mismatch (ground_truth_log df ! (k + 1)) (end_of_turn_state t) a
             then Some Mismatch else map_of state a)"
    using m by (auto simp: kt map_of_mark_turn)
  ultimately show ?case using k' by blast
qed

lemma compare_turns_keeps_mismatch:
  "compare_turns df later state = Inr state' \<Longrightarrow> map_of state api = Some Mismatch \<Longrightarrow>
   map_of state' api = Some Mismatch"
proof (induction later arbitrary: state)
  case Nil
  then show ?case by simp
next
  case (Cons kt later)
  obtain k t where kt: "kt = (k, t)" by (cases kt)
  show ?case
  proof (cases "getitem (ground_truth_log df) (k + 1)")
    case (Inl e)
    then show ?thesis using Cons.prems(1) by (simp add: kt)
  next
    case (Inr gt_states)
    then have "compare_turns df later (mark_turn gt_states (end_of_turn_state t) state)
        = Inr state'"
      using Cons.prems(1) by (simp add: kt)
    moreover have "map_of (mark_turn gt_states (end_of_turn_state t) state) api = Some Mismatch"
      using Cons.prems(2) by (simp add: map_of_mark_turn)
    ultimately show ?thesis by (rule Cons.IH)
  qed
qed

lemma enumerate_mismatch:
  "(\<exists>(k, t) \<in> set (enumerate 0 (turn_responses df)).
       pair_mismatch (ground_truth_log df ! (k + 1)) (end_of_turn_state t) a)
   = ground_truth_mismatch df a"
  by (auto simp: ground_truth_mismatch_def in_set_enumerate_eq)

lemma initial_state_keys:
  "keeps_api_keys (map (\<lambda>api. (api, NotApplicable)) API_LIST)"
proof -
  have "distinct API_LIST" by (simp add: API_LIST_def)
  then show ?thesis by (simp add: keeps_api_keys_def comp_def)
qed

lemma map_of_initial_state:
  "map_of (map (\<lambda>api. (api, v)) ks) a = (if a \<in> set ks then Some v else None)"
  by (induction ks) auto

text \<open>The dict at the return, for a transcript with at least one turn.\<close>

lemma check_api_state_mismatch_state_map:
  assumes "turn_responses df \<noteq> []"
  shows "\<exists>state. check_api_state_mismatch_state df = Inr state \<and> keeps_api_keys state
     \<and> (\<forall>a. map_of state a =
           (if length_invariant df
            then (if ground_truth_mismatch df a then Some Mismatch
                  else if a \<in> first_turn_apis df then Some NoMismatch
                  else if a \<in> set API_LIST then Some NotApplicable else None)
            else (if a \<in> first_turn_apis df then Some Mismatch
                  else if a \<in> set API_LIST then Some NotApplicable else None)))"
proof -
  let ?state0 = "map (\<lambda>api. (api, NotApplicable)) API_LIST"
  let ?api_list = "map class_name (end_of_turn_state (turn_responses df ! 0))"
  let ?state1 = "fold (\<lambda>api st. AList.update api NoMismatch st) ?api_list ?state0"
  have first: "getitem (turn_responses df) 0 = Inr (turn_responses df ! 0)"
    using assms by (simp add: getitem_def)
  have k1: "keeps_api_keys ?state1"
    by (rule keeps_api_keys_fold_update) (rule initial_state_keys)
  have m1: "map_of ?state1 a =
      (if a \<in> first_turn_apis df then Some NoMismatch
       else if a \<in> set API_LIST then Some NotApplicable else None)" for a
    by (simp add: map_of_fold_update map_of_initial_state first_turn_apis_def)
  show ?thesis
  proof (cases "length_invariant df")
    case False
    let ?state2 = "fold (\<lambda>api st. AList.update api Mismatch st) ?api_list ?state1"
    have run: "check_api_state_mismatch_state df = Inr ?state2"
      using False by (simp add: check_api_state_mismatch_state_def first length_invariant_def Let_def)
    have k2: "keeps_api_keys ?state2"
      using k1 by (rule keeps_api_keys_fold_update)
    have m2: "map_of ?state2 a =
        (if a \<in> first_turn_apis df then Some Mismatch
         else if a \<in> set API_LIST then Some NotApplicable else None)" for a
      by (simp add: map_of_fold_update map_of_initial_state first_turn_apis_def)
    show ?thesis
      by (rule exI [of _ ?state2]) (simp only: run k2 m2 False if_False simp_thms)
  next
    case True
    have range: "\<forall>(k, t) \<in> set (enumerate 0 (turn_responses df)).
        k + 1 < length (ground_truth_log df)"
      using True by (auto simp: in_set_enumerate_eq length_invariant_def)
    from compare_turns_map [OF range k1] obtain state' where
      run: "compare_turns df (enumerate 0 (turn_responses df)) ?state1 = Inr state'"
      and k': "keeps_api_keys state'"
      and m: "\<forall>a. map_of state' a =
            (if \<exists>(k, t) \<in> set (enumerate 0 (turn_responses df)).
                  pair_mismatch (ground_truth_log df ! (k + 1)) (end_of_turn_state t) a
             then Some Mismatch else map_of ?state1 a)"
      by blast
    have ret: "check_api_state_mismatch_state df = Inr state'"
      using True run
      by (simp add: check_api_state_mismatch_state_def first length_invariant_def Let_def)
    have m': "map_of state' a =
        (if ground_truth_mismatch df a then Some Mismatch
         else if a \<in> first_turn_apis df then Some NoMismatch
         else if a \<in> set API_LIST then Some NotApplicable else None)" for a
      using m by (simp only: enumerate_mismatch m1)
    show ?thesis
      by (rule exI [of _ state']) (simp only: ret k' m' True if_True simp_thms)
  qed
qed

text \<open>The position of a known API in the returned series holds its value in the dict.\<close>

lemma series_position:
  assumes "keeps_api_keys state" and "i < length API_LIST"
  shows "length API_LIST \<le> length state
     \<and> map_of state (API_LIST ! i) = Some (map snd state ! i)"
proof -
  from assms(1) obtain ext where keys: "map fst state = API_LIST @ ext"
    and dist: "distinct (map fst state)"
    by (auto simp: keeps_api_keys_def prefix_def)
  have len: "length API_LIST \<le> length state"
    using keys by (metis length_append length_map le_add1)
  then have i: "i < length state" using assms(2) by simp
  have "fst (state ! i) = API_LIST ! i"
    using keys i assms(2) by (metis nth_append nth_map)
  then have "(API_LIST ! i, snd (state ! i)) \<in> set state"
    using i by (metis nth_mem prod.collapse)
  then have "map_of state (API_LIST ! i) = Some (snd (state ! i))"
    using dist by simp
  then show ?thesis using len i by simp
qed

lemmas api_sample_defs =
  sample_state_def sample_turn_def late_error_def late_api_def renamed_state_def
  late_api_long_log_def no_turns_no_log_def first_turn_only_def no_turns_def

lemmas api_run_defs =
  check_api_state_mismatch_def check_api_state_mismatch_state_def getitem_def mark_turn_def
  API_LIST_def Let_def enumerate_eq_zip upt_rec

section \<open>check\_api\_state\_mismatch on a well-formed transcript\<close>

text \<open>
  Claim C1, as the code has it. For every transcript with at least one turn,
  \<open>check_api_state_mismatch\<close> returns a series whose first positions are the known APIs
  in their order. An API is marked not-applicable exactly when its name is not a class
  name of the first turn's end-of-turn state and it is not marked mismatch by the loop
  below. When the length invariant holds, an API is marked mismatch exactly when some turn
  has a positional pair of ground-truth and predicted state that is structurally unequal
  and whose ground-truth entry carries that API's class name. Once marked mismatch, an
  API stays mismatch through the rest of the loop.
\<close>

theorem check_api_state_mismatch_marks:
  assumes "turn_responses df \<noteq> []"
  shows "(\<exists>vs. check_api_state_mismatch df = Inr vs \<and> length API_LIST \<le> length vs
          \<and> (\<forall>i<length API_LIST.
                (vs ! i = NotApplicable \<longleftrightarrow>
                   API_LIST ! i \<notin> first_turn_apis df
                   \<and> \<not> (length_invariant df \<and> ground_truth_mismatch df (API_LIST ! i)))
              \<and> (length_invariant df \<longrightarrow>
                   (vs ! i = Mismatch \<longleftrightarrow> ground_truth_mismatch df (API_LIST ! i)))))
       \<and> (\<forall>later state state' api.
             compare_turns df later state = Inr state' \<and> map_of state api = Some Mismatch
             \<longrightarrow> map_of state' api = Some Mismatch)"
proof -
  from check_api_state_mismatch_state_map [OF assms] obtain state where
    run: "check_api_state_mismatch_state df = Inr state" and keys: "keeps_api_keys state"
    and m: "\<And>a. map_of state a =
           (if length_invariant df
            then (if ground_truth_mismatch df a then Some Mismatch
                  else if a \<in> first_turn_apis df then Some NoMismatch
                  else if a \<in> set API_LIST then Some NotApplicable else None)
            else (if a \<in> first_turn_apis df then Some Mismatch
                  else if a \<in> set API_LIST then Some NotApplicable else None))"
    by blast
  let ?vs = "map snd state"
  have ret: "check_api_state_mismatch df = Inr ?vs"
    by (simp add: check_api_state_mismatch_def run)
  have len: "length API_LIST \<le> length ?vs"
    using series_position [OF keys, of 0] by (simp add: API_LIST_def)
  have pos: "(?vs ! i = NotApplicable \<longleftrightarrow>
        API_LIST ! i \<notin> first_turn_apis df
        \<and> \<not> (length_invariant df \<and> ground_truth_mismatch df (API_LIST ! i)))
      \<and> (length_invariant df \<longrightarrow>
           (?vs ! i = Mismatch \<longleftrightarrow> ground_truth_mismatch df (API_LIST ! i)))"
    if i: "i < length API_LIST" for i
  proof -
    have known: "API_LIST ! i \<in> set API_LIST"
      using i by simp
    have "Some (?vs ! i) = map_of state (API_LIST ! i)"
      using series_position [OF keys i] by simp
    also have "\<dots> =
           (if length_invariant df
            then (if ground_truth_mismatch df (API_LIST ! i) then Some Mismatch
                  else if API_LIST ! i \<in> first_turn_apis df then Some NoMismatch
                  else Some NotApplicable)
            else (if API_LIST ! i \<in> first_turn_apis df then Some Mismatch
                  else Some NotApplicable))"
      using known by (simp add: m)
    finally show ?thesis
      by (simp split: if_splits)
  qed
  have stays: "map_of state' api = Some Mismatch"
    if "compare_turns df later state0 = Inr state'" "map_of state0 api = Some Mismatch"
    for later state0 state' api
    using that by (rule compare_turns_keeps_mismatch)
  have "\<exists>vs. check_api_state_mismatch df = Inr vs \<and> length API_LIST \<le> length vs
          \<and> (\<forall>i<length API_LIST.
                (vs ! i = NotApplicable \<longleftrightarrow>
                   API_LIST ! i \<notin> first_turn_apis df
                   \<and> \<not> (length_invariant df \<and> ground_truth_mismatch df (API_LIST ! i)))
              \<and> (length_invariant df \<longrightarrow>
                   (vs ! i = Mismatch \<longleftrightarrow> ground_truth_mismatch df (API_LIST ! i))))"
    using ret len pos by blast
  then show ?thesis using stays by blast
qed

theorem check_api_state_mismatch_marks_witness:
  "turn_responses late_error \<noteq> [] \<and> length_invariant late_error
   \<and> check_api_state_mismatch late_error =
       Inr [NotApplicable, Mismatch, NotApplicable, NotApplicable, NotApplicable,
            NotApplicable, NotApplicable, NotApplicable]
   \<and> API_LIST ! 1 = ''MathAPI''
   \<and> ground_truth_mismatch late_error ''MathAPI''
   \<and> API_LIST ! 0 = ''GorillaFileSystem''
   \<and> ''GorillaFileSystem'' \<notin> first_turn_apis late_error"
proof -
  have ne: "turn_responses late_error \<noteq> []"
    by (simp add: api_sample_defs)
  have inv: "length_invariant late_error"
    by (simp add: length_invariant_def api_sample_defs)
  have run: "check_api_state_mismatch late_error =
       Inr [NotApplicable, Mismatch, NotApplicable, NotApplicable, NotApplicable,
            NotApplicable, NotApplicable, NotApplicable]"
    by (simp add: api_run_defs api_sample_defs)
  have a1: "API_LIST ! 1 = ''MathAPI''" and a0: "API_LIST ! 0 = ''GorillaFileSystem''"
    by (simp_all add: API_LIST_def)
  have n1: "1 < length API_LIST" and n0: "0 < length API_LIST"
    by (simp_all add: API_LIST_def)
  from check_api_state_mismatch_marks [OF ne] obtain vs where
    vs: "check_api_state_mismatch late_error = Inr vs"
    and pos: "\<forall>i<length API_LIST.
                (vs ! i = NotApplicable \<longleftrightarrow>
                   API_LIST ! i \<notin> first_turn_apis late_error
                   \<and> \<not> (length_invariant late_error
                        \<and> ground_truth_mismatch late_error (API_LIST ! i)))
              \<and> (length_invariant late_error \<longrightarrow>
                   (vs ! i = Mismatch \<longleftrightarrow> ground_truth_mismatch late_error (API_LIST ! i)))"
    by blast
  have vs_eq: "vs = [NotApplicable, Mismatch, NotApplicable, NotApplicable, NotApplicable,
            NotApplicable, NotApplicable, NotApplicable]"
    using vs run by simp
  have "vs ! 1 = Mismatch \<longleftrightarrow> ground_truth_mismatch late_error (API_LIST ! 1)"
    using pos n1 inv by blast
  then have g: "ground_truth_mismatch late_error ''MathAPI''"
    using a1 by (simp add: vs_eq)
  have "vs ! 0 = NotApplicable \<longleftrightarrow>
      API_LIST ! 0 \<notin> first_turn_apis late_error
      \<and> \<not> (length_invariant late_error \<and> ground_truth_mismatch late_error (API_LIST ! 0))"
    using pos n0 by blast
  then have f: "''GorillaFileSystem'' \<notin> first_turn_apis late_error"
    by (simp add: vs_eq a0)
  show ?thesis using ne inv run a1 g a0 f by simp
qed

text \<open>
  Presence is read from the first turn only: an API that appears in the second turn
  alone stays not-applicable. An API that appears in no end-of-turn state is marked
  mismatch when an unequal pair's ground-truth entry carries its name. With no turns the
  lookup \<^verbatim>\<open>df['turn_responses'][0]\<close> raises IndexError.
\<close>

theorem check_api_state_mismatch_first_turn_only:
  "length_invariant late_api
   \<and> ''MathAPI'' \<in> class_name ` set (end_of_turn_state (turn_responses late_api ! 1))
   \<and> check_api_state_mismatch late_api =
       Inr [NotApplicable, NotApplicable, NotApplicable, NotApplicable, NotApplicable,
            NotApplicable, NotApplicable, NotApplicable]
   \<and> length_invariant renamed_state
   \<and> ''MathAPI'' \<notin> class_name ` set (end_of_turn_state (turn_responses renamed_state ! 0))
   \<and> check_api_state_mismatch renamed_state =
       Inr [NotApplicable, Mismatch, NotApplicable, NotApplicable, NotApplicable,
            NoMismatch, NotApplicable, NotApplicable]
   \<and> check_api_state_mismatch no_turns = Inl IndexError"
proof -
  have "check_api_state_mismatch late_api =
       Inr [NotApplicable, NotApplicable, NotApplicable, NotApplicable, NotApplicable,
            NotApplicable, NotApplicable, NotApplicable]"
    by (simp add: api_run_defs api_sample_defs)
  moreover have "check_api_state_mismatch renamed_state =
       Inr [NotApplicable, Mismatch, NotApplicable, NotApplicable, NotApplicable,
            NoMismatch, NotApplicable, NotApplicable]"
    by (simp add: api_run_defs api_sample_defs)
  moreover have "check_api_state_mismatch no_turns = Inl IndexError"
    by (simp add: api_run_defs api_sample_defs)
  ultimately show ?thesis
    by (simp add: length_invariant_def api_sample_defs)
qed

section \<open>check\_api\_state\_mismatch when the length invariant fails\<close>

text \<open>
  Claim C2, as the code has it. For every transcript with at least one turn in which
  \<^verbatim>\<open>len(ground_truth_log)\<close> differs from \<^verbatim>\<open>len(turn_responses) + 1\<close>,
  \<open>check_api_state_mismatch\<close> does not fault and marks every API that appears in the
  first turn's end-of-turn state as mismatch, while every other known API remains
  not-applicable.
\<close>

theorem check_api_state_mismatch_length_violation:
  assumes "turn_responses df \<noteq> []"
    and "length (ground_truth_log df) \<noteq> length (turn_responses df) + 1"
  shows "\<exists>vs. check_api_state_mismatch df = Inr vs \<and> length API_LIST \<le> length vs
          \<and> (\<forall>i<length API_LIST.
                vs ! i = (if API_LIST ! i \<in> first_turn_apis df then Mismatch
                          else NotApplicable))"
proof -
  have viol: "\<not> length_invariant df"
    using assms(2) by (simp add: length_invariant_def)
  from check_api_state_mismatch_state_map [OF assms(1)] obtain state where
    run: "check_api_state_mismatch_state df = Inr state" and keys: "keeps_api_keys state"
    and m: "\<And>a. map_of state a =
           (if a \<in> first_turn_apis df then Some Mismatch
            else if a \<in> set API_LIST then Some NotApplicable else None)"
    using viol by auto
  let ?vs = "map snd state"
  have ret: "check_api_state_mismatch df = Inr ?vs"
    by (simp add: check_api_state_mismatch_def run)
  have len: "length API_LIST \<le> length ?vs"
    using series_position [OF keys, of 0] by (simp add: API_LIST_def)
  have pos: "?vs ! i = (if API_LIST ! i \<in> first_turn_apis df then Mismatch else NotApplicable)"
    if i: "i < length API_LIST" for i
  proof -
    have known: "API_LIST ! i \<in> set API_LIST"
      using i by simp
    have "Some (?vs ! i) = map_of state (API_LIST ! i)"
      using series_position [OF keys i] by simp
    also have "\<dots> = (if API_LIST ! i \<in> first_turn_apis df then Some Mismatch
                      else Some NotApplicable)"
      using known by (simp add: m)
    finally show ?thesis
      by (simp split: if_splits)
  qed
  show ?thesis using ret len pos by blast
qed

theorem check_api_state_mismatch_length_violation_witness:
  "turn_responses first_turn_only \<noteq> []
   \<and> length (ground_truth_log first_turn_only) \<noteq> length (turn_responses first_turn_only) + 1
   \<and> check_api_state_mismatch first_turn_only =
       Inr [NotApplicable, Mismatch, NotApplicable, NotApplicable, Mismatch,
            NotApplicable, NotApplicable, NotApplicable]
   \<and> API_LIST ! 4 = ''TicketAPI''
   \<and> ''TicketAPI'' \<in> first_turn_apis first_turn_only"
proof -
  have ne: "turn_responses first_turn_only \<noteq> []"
    by (simp add: api_sample_defs)
  have viol: "length (ground_truth_log first_turn_only)
      \<noteq> length (turn_responses first_turn_only) + 1"
    by (simp add: api_sample_defs)
  have run: "check_api_state_mismatch first_turn_only =
       Inr [NotApplicable, Mismatch, NotApplicable, NotApplicable, Mismatch,
            NotApplicable, NotApplicable, NotApplicable]"
    by (simp add: api_run_defs api_sample_defs)
  have a4: "API_LIST ! 4 = ''TicketAPI''" and n4: "4 < length API_LIST"
    by (simp_all add: API_LIST_def)
  from check_api_state_mismatch_length_violation [OF ne viol] obtain vs where
    vs: "check_api_state_mismatch first_turn_only = Inr vs"
    and pos: "\<forall>i<length API_LIST.
        vs ! i = (if API_LIST ! i \<in> first_turn_apis first_turn_only then Mismatch
                  else NotApplicable)"
    by blast
  have vs_eq: "vs = [NotApplicable, Mismatch, NotApplicable, NotApplicable, Mismatch,
            NotApplicable, NotApplicable, NotApplicable]"
    using vs run by simp
  have "vs ! 4 = (if API_LIST ! 4 \<in> first_turn_apis first_turn_only then Mismatch
                  else NotApplicable)"
    using pos n4 by blast
  then have f: "''TicketAPI'' \<in> first_turn_apis first_turn_only"
    by (simp add: vs_eq a4 split: if_splits)
  show ?thesis using ne viol run a4 f by simp
qed

text \<open>
  With no turns and an empty ground-truth log the length invariant fails and the function
  raises IndexError; and an API that appears in the second turn alone stays
  not-applicable.
\<close>

theorem check_api_state_mismatch_violation_faults:
  "length (ground_truth_log no_turns_no_log) \<noteq> length (turn_responses no_turns_no_log) + 1
   \<and> check_api_state_mismatch no_turns_no_log = Inl IndexError
   \<and> length (ground_truth_log late_api_long_log)
       \<noteq> length (turn_responses late_api_long_log) + 1
   \<and> ''MathAPI'' \<in> class_name ` set (end_of_turn_state (turn_responses late_api_long_log ! 1))
   \<and> check_api_state_mismatch late_api_long_log =
       Inr [NotApplicable, NotApplicable, NotApplicable, NotApplicable, NotApplicable,
            NotApplicable, NotApplicable, NotApplicable]"
proof -
  have "check_api_state_mismatch no_turns_no_log = Inl IndexError"
    by (simp add: api_run_defs api_sample_defs)
  moreover have "check_api_state_mismatch late_api_long_log =
       Inr [NotApplicable, NotApplicable, NotApplicable, NotApplicable, NotApplicable,
            NotApplicable, NotApplicable, NotApplicable]"
    by (simp add: api_run_defs api_sample_defs)
  ultimately show ?thesis
    by (simp add: api_sample_defs)
qed

end
